theory Spec2Isabelle
  imports Complex_Main "HOL-Library.Char_ord" "HOL-Library.List_Lexorder" "HOL-Library.Product_Lexorder"
    "HOL-Library.Log_Nat"
begin

section \<open>Data model\<close>

text \<open>
  The two modules under \<^verbatim>\<open>src/new_whisper_mcp\<close> pass Python dicts around. Each dict
  shape becomes a record. Timestamps are Python floats (or ints); every finite float is a
  rational number, so a timestamp is a \<^typ>\<open>rat\<close>. The mock transcriber and the aligner
  are modelled on exact timestamps: there \<open>+\<close> and \<^verbatim>\<open>round\<close> are taken exact. The addition
  of the chunk offset is modelled twice, exactly and with the rounding of float addition
  (\<open>chunk_loop\<close> and \<open>chunk_loop_float\<close> below). Strings are \<^typ>\<open>string\<close>, one \<^typ>\<open>char\<close>
  per code point below 256.
\<close>

text \<open>
  A transcript segment as \<^verbatim>\<open>transcribe_chunk\<close> builds it. The remaining keys of the dict
  (\<^verbatim>\<open>seek\<close>, \<^verbatim>\<open>tokens\<close>, \<^verbatim>\<open>temperature\<close>, \<^verbatim>\<open>avg_logprob\<close>, \<^verbatim>\<open>compression_ratio\<close>,
  \<^verbatim>\<open>no_speech_prob\<close>) are constants that no function reads. The text is optional because
  the aligner reads it with \<^verbatim>\<open>a.get("text", "")\<close>.
\<close>

record asr_segment =
  seg_id :: nat
  seg_start :: rat
  seg_end :: rat
  seg_text :: "string option"

record diar_segment =
  d_speaker :: string
  d_start :: rat
  d_end :: rat

record aligned_segment =
  a_speaker :: string
  a_start :: rat
  a_end :: rat
  a_text :: string

section \<open>Python built-ins used by the code\<close>

text \<open>
  \<^verbatim>\<open>round(x, 2)\<close>: the nearest multiple of \<open>1/100\<close>, a tie going to the even neighbour.
\<close>

definition round_half_even :: "rat \<Rightarrow> int" where
  "round_half_even y =
     (let f = \<lfloor>y\<rfloor>; r = y - of_int f
      in if r < 1 / 2 then f
         else if 1 / 2 < r then f + 1
         else if even f then f else f + 1)"

definition py_round2 :: "rat \<Rightarrow> rat" where
  "py_round2 x = of_int (round_half_even (x * 100)) / 100"

text \<open>
  A Python float is an IEEE 754 double: a multiple of a power of two with a significand
  below \<open>2 ^ 53\<close>. \<open>pow2 e\<close> is \<open>2\<close> to the integer power \<open>e\<close>, and \<open>ilog2 x\<close> is the
  greatest \<open>k\<close> with \<open>pow2 k \<le> \<bar>x\<bar>\<close> for \<open>x \<noteq> 0\<close>.
\<close>

definition pow2 :: "int \<Rightarrow> rat" where
  "pow2 e = (if 0 \<le> e then 2 ^ nat e else 1 / 2 ^ nat (- e))"

definition ilog2 :: "rat \<Rightarrow> int" where
  "ilog2 x =
     (let (p, q) = quotient_of \<bar>x\<bar>; k = bitlen p - bitlen q
      in if pow2 k \<le> \<bar>x\<bar> then k else k - 1)"

text \<open>
  The float nearest to the exact value \<open>x\<close>, a tie going to the even significand: the
  rounding of every float operation. The spacing of the floats around \<open>x\<close> is
  \<open>pow2 (ilog2 x - 52)\<close>, and \<open>pow2 (- 1074)\<close> for the subnormal ones. Overflow to
  infinity (from \<open>2 ^ 1024\<close> on) is not modelled.
\<close>

definition double_round :: "rat \<Rightarrow> rat" where
  "double_round x =
     (if x = 0 then 0
      else let e = max (ilog2 x - 52) (- 1074)
           in of_int (round_half_even (x / pow2 e)) * pow2 e)"

text \<open>\<^verbatim>\<open>x + y\<close> on floats.\<close>

definition float_add :: "rat \<Rightarrow> rat \<Rightarrow> rat" where
  "float_add x y = double_round (x + y)"

text \<open>
  \<^verbatim>\<open>str.strip()\<close> removes leading and trailing whitespace. Below code point 256 the
  characters with \<^verbatim>\<open>isspace()\<close> are 9 to 13, 28 to 32, 133 and 160.
\<close>

definition isspace :: "char \<Rightarrow> bool" where
  "isspace c = ((of_char c :: nat) \<in> {9, 10, 11, 12, 13, 28, 29, 30, 31, 32, 133, 160})"

definition strip :: "string \<Rightarrow> string" where
  "strip s = rev (dropWhile isspace (rev (dropWhile isspace s)))"

section \<open>The aligner: \<^verbatim>\<open>align_asr_with_diarization\<close>\<close>

text \<open>The test computed into the local variable \<^verbatim>\<open>overlap\<close> (line 169).\<close>

definition overlap :: "asr_segment \<Rightarrow> diar_segment \<Rightarrow> bool" where
  "overlap a d \<longleftrightarrow> seg_start a \<le> d_end d \<and> seg_end a \<ge> d_start d"

text \<open>The dict appended to \<^verbatim>\<open>results\<close> (lines 171 to 176).\<close>

definition aligned_entry :: "asr_segment \<Rightarrow> diar_segment \<Rightarrow> aligned_segment" where
  "aligned_entry a d =
     \<lparr>a_speaker = d_speaker d,
      a_start = py_round2 (seg_start a),
      a_end = py_round2 (seg_end a),
      a_text = strip (case seg_text a of None \<Rightarrow> [] | Some t \<Rightarrow> t)\<rparr>"

text \<open>
  The inner loop \<^verbatim>\<open>for d in diar_segments\<close>: it appends at the first overlap and breaks;
  falling off the end of the list leaves \<^verbatim>\<open>results\<close> as it was.
\<close>

fun scan_diar :: "asr_segment \<Rightarrow> diar_segment list \<Rightarrow> aligned_segment list \<Rightarrow> aligned_segment list" where
  "scan_diar a [] results = results"
| "scan_diar a (d # ds) results =
     (if overlap a d then results @ [aligned_entry a d] else scan_diar a ds results)"

text \<open>The outer loop \<^verbatim>\<open>for a in asr_segments\<close>, threading \<^verbatim>\<open>results\<close>.\<close>

fun align_loop :: "asr_segment list \<Rightarrow> diar_segment list \<Rightarrow> aligned_segment list \<Rightarrow> aligned_segment list" where
  "align_loop [] ds results = results"
| "align_loop (a # as) ds results = align_loop as ds (scan_diar a ds results)"

definition align_asr_with_diarization :: "asr_segment list \<Rightarrow> diar_segment list \<Rightarrow> aligned_segment list" where
  "align_asr_with_diarization asr_segments diar_segments = align_loop asr_segments diar_segments []"

section \<open>Configuration and collaborators\<close>

definition CHUNK_DURATION_SEC :: rat where
  "CHUNK_DURATION_SEC = 20"

text \<open>
  An exception is a value. What a collaborator call raises is either an instance of
  \<^verbatim>\<open>Exception\<close> or another \<^verbatim>\<open>BaseException\<close> (\<^verbatim>\<open>asyncio.CancelledError\<close>,
  \<^verbatim>\<open>KeyboardInterrupt\<close>, \<^verbatim>\<open>SystemExit\<close>), in both cases with its \<^verbatim>\<open>str(e)\<close>: only the
  first kind is caught by \<^verbatim>\<open>except Exception\<close>. \<open>HTTPStatusError\<close> is what
  \<^verbatim>\<open>resp.raise_for_status()\<close> raises, which it does unless the status is 2xx.
\<close>

datatype raised = Exception string | BaseException string

datatype error = HTTPStatusError nat | Raised raised

text \<open>
  The HTTP response that \<^verbatim>\<open>client.stream("GET", url)\<close> yields. The header lookup of httpx
  ignores case, so the header map is keyed by the lower-case field name.
\<close>

record http_response =
  status_code :: nat
  headers :: "string \<rightharpoonup> string"

definition is_success :: "http_response \<Rightarrow> bool" where
  "is_success resp \<longleftrightarrow> 200 \<le> status_code resp \<and> status_code resp \<le> 299"

text \<open>
  \<^verbatim>\<open>download_audio\<close> of \<^verbatim>\<open>meeting_audio_mcp.py\<close>: \<^verbatim>\<open>resp.headers.get("Content-Type")\<close>
  with no default. The name of the temporary file comes from the operating system and is
  a parameter.
\<close>

definition meeting_download_audio :: "http_response \<Rightarrow> string \<Rightarrow> error + (string \<times> string option)" where
  "meeting_download_audio resp tmp_path =
     (if is_success resp then Inr (tmp_path, headers resp ''content-type'')
      else Inl (HTTPStatusError (status_code resp)))"

text \<open>
  \<^verbatim>\<open>download_audio\<close> of \<^verbatim>\<open>server.py\<close>: \<^verbatim>\<open>resp.headers.get("Content-Type", "audio/mpeg")\<close>.
\<close>

definition server_download_audio :: "http_response \<Rightarrow> string \<Rightarrow> error + (string \<times> string option)" where
  "server_download_audio resp tmp_path =
     (if is_success resp
      then Inr (tmp_path,
                Some (case headers resp ''content-type'' of None \<Rightarrow> ''audio/mpeg'' | Some v \<Rightarrow> v))
      else Inl (HTTPStatusError (status_code resp)))"

text \<open>
  \<^verbatim>\<open>split_audio\<close> creates \<^verbatim>\<open>NUM_CHUNKS\<close> empty files \<^verbatim>\<open>chunk_000.mp3\<close>, \<^verbatim>\<open>chunk_001.mp3\<close>, ...;
  a chunk is identified by its number.
\<close>

definition split_audio :: "nat \<Rightarrow> nat list" where
  "split_audio NUM_CHUNKS = [0..<NUM_CHUNKS]"

section \<open>The mock transcriber: \<^verbatim>\<open>transcribe_chunk\<close> of \<^verbatim>\<open>meeting_audio_mcp.py\<close>\<close>

text \<open>
  The random choices of one call are an explicit argument: the result of
  \<^verbatim>\<open>random.randint(2, 5)\<close>, and for iteration \<open>i\<close> the result of
  \<^verbatim>\<open>random.uniform(2.0, 5.0)\<close> and the text that \<^verbatim>\<open>generate_random_text\<close> returns.
  The simulated latency is not modelled.
\<close>

record chunk_draws =
  num_segments :: nat
  duration_draw :: "nat \<Rightarrow> rat"
  text_draw :: "nat \<Rightarrow> string"

text \<open>The draws that \<^verbatim>\<open>randint(2, 5)\<close> and \<^verbatim>\<open>uniform(2.0, 5.0)\<close> can return.\<close>

definition valid_draws :: "chunk_draws \<Rightarrow> bool" where
  "valid_draws rc \<longleftrightarrow>
     2 \<le> num_segments rc \<and> num_segments rc \<le> 5 \<and>
     list_all (\<lambda>i. 2 \<le> duration_draw rc i \<and> duration_draw rc i \<le> 5) [0..<num_segments rc]"

text \<open>The loop \<^verbatim>\<open>for i in range(num_segments)\<close> with its two variables.\<close>

fun seg_loop :: "chunk_draws \<Rightarrow> nat list \<Rightarrow> rat \<Rightarrow> asr_segment list \<Rightarrow> asr_segment list" where
  "seg_loop rc [] current_time segments = segments"
| "seg_loop rc (i # is) current_time segments =
     (let start = py_round2 current_time;
          duration = py_round2 (duration_draw rc i);
          end' = py_round2 (start + duration);
          text = text_draw rc i
      in seg_loop rc is end'
           (segments @ [\<lparr>seg_id = i, seg_start = start, seg_end = end', seg_text = Some text\<rparr>]))"

definition transcribe_chunk :: "chunk_draws \<Rightarrow> asr_segment list" where
  "transcribe_chunk rc = seg_loop rc [0..<num_segments rc] 0 []"

section \<open>The pipeline: \<^verbatim>\<open>process_meeting_audio\<close>\<close>

text \<open>
  The two in-place updates \<^verbatim>\<open>s["start"] += offset\<close> and \<^verbatim>\<open>s["end"] += offset\<close>, on exact
  timestamps.
\<close>

definition add_offset :: "rat \<Rightarrow> asr_segment \<Rightarrow> asr_segment" where
  "add_offset offset s = s\<lparr>seg_start := seg_start s + offset, seg_end := seg_end s + offset\<rparr>"

text \<open>
  The loop \<^verbatim>\<open>for chunk in chunks\<close> (lines 203 to 212) on exact timestamps. The
  transcription of a chunk is a collaborator call: \<open>transcribe chunk\<close> is its outcome,
  \<open>Inl e\<close> when the call raises \<open>e\<close>. The loop has no handler, so an exception of either
  kind leaves it at once.
\<close>

fun chunk_loop :: "(nat \<Rightarrow> raised + asr_segment list) \<Rightarrow> nat list \<Rightarrow> rat \<Rightarrow> asr_segment list
    \<Rightarrow> error + asr_segment list" where
  "chunk_loop transcribe [] offset all_asr_segments = Inr all_asr_segments"
| "chunk_loop transcribe (chunk # chunks) offset all_asr_segments =
     (case transcribe chunk of
        Inl e \<Rightarrow> Inl (Raised e)
      | Inr segs \<Rightarrow>
          chunk_loop transcribe chunks (offset + CHUNK_DURATION_SEC)
            (all_asr_segments @ map (add_offset offset) segs))"

text \<open>
  The same lines with the three additions as Python performs them, on floats:
  \<^verbatim>\<open>s["start"] += offset\<close>, \<^verbatim>\<open>s["end"] += offset\<close> and \<^verbatim>\<open>offset += CHUNK_DURATION_SEC\<close>
  each round their exact sum to the nearest float. This is the loop that
  \<^verbatim>\<open>process_meeting_audio\<close> runs; \<open>chunk_loop_float_rounds_chunk_loop\<close> relates the two.
\<close>

definition add_offset_float :: "rat \<Rightarrow> asr_segment \<Rightarrow> asr_segment" where
  "add_offset_float offset s =
     s\<lparr>seg_start := float_add (seg_start s) offset, seg_end := float_add (seg_end s) offset\<rparr>"

fun chunk_loop_float :: "(nat \<Rightarrow> raised + asr_segment list) \<Rightarrow> nat list \<Rightarrow> rat \<Rightarrow> asr_segment list
    \<Rightarrow> error + asr_segment list" where
  "chunk_loop_float transcribe [] offset all_asr_segments = Inr all_asr_segments"
| "chunk_loop_float transcribe (chunk # chunks) offset all_asr_segments =
     (case transcribe chunk of
        Inl e \<Rightarrow> Inl (Raised e)
      | Inr segs \<Rightarrow>
          chunk_loop_float transcribe chunks (float_add offset CHUNK_DURATION_SEC)
            (all_asr_segments @ map (add_offset_float offset) segs))"

text \<open>\<^verbatim>\<open>sep.join(parts)\<close>.\<close>

fun join :: "string \<Rightarrow> string list \<Rightarrow> string" where
  "join sep [] = []"
| "join sep [x] = x"
| "join sep (x # y # ys) = x @ sep @ join sep (y # ys)"

text \<open>
  \<^verbatim>\<open>max(values, default=d)\<close>: the default for no value, else the first value is kept until a
  strictly greater one comes.
\<close>

fun py_max :: "rat list \<Rightarrow> rat \<Rightarrow> rat" where
  "py_max [] dflt = dflt"
| "py_max (x # xs) dflt = foldl (\<lambda>m v. if m < v then v else m) x xs"

record meeting_transcript =
  meeting_id :: string
  speakers :: "string list"
  segments :: "aligned_segment list"
  full_transcript :: string
  duration :: rat

text \<open>
  Step 4 of \<^verbatim>\<open>process_meeting_audio\<close> (lines 221 to 231). \<^verbatim>\<open>sorted\<close> of a set of strings
  lists the set in ascending order; Python compares strings code point by code point,
  which is the lexicographic order on \<^typ>\<open>string\<close>.
\<close>

definition build_response :: "string \<Rightarrow> aligned_segment list \<Rightarrow> meeting_transcript" where
  "build_response uuid aligned_segments =
     \<lparr>meeting_id = uuid,
      speakers = sorted_list_of_set (set (map a_speaker aligned_segments)),
      segments = aligned_segments,
      full_transcript = join '' '' (map a_text aligned_segments),
      duration = py_max (map a_end aligned_segments) 0\<rparr>"

text \<open>
  Everything outside the function that one call meets: the HTTP response, the name of the
  temporary file, \<^verbatim>\<open>NUM_CHUNKS\<close>, the outcome of the transcription of each chunk, the outcome
  of the diarization, and the fresh \<^verbatim>\<open>uuid4()\<close>.
\<close>

record meeting_world =
  response :: http_response
  tmp_path :: string
  NUM_CHUNKS :: nat
  transcribe :: "nat \<Rightarrow> raised + asr_segment list"
  diarize :: "raised + diar_segment list"
  uuid :: string

text \<open>
  The files are not modelled. \<^verbatim>\<open>try ... finally\<close> removes the temporary file and lets the
  exception pass.
\<close>

definition process_meeting_audio :: "meeting_world \<Rightarrow> error + meeting_transcript" where
  "process_meeting_audio w =
     (case meeting_download_audio (response w) (tmp_path w) of
        Inl e \<Rightarrow> Inl e
      | Inr (tmp_file, content_type) \<Rightarrow>
          (case chunk_loop_float (transcribe w) (split_audio (NUM_CHUNKS w)) 0 [] of
             Inl e \<Rightarrow> Inl e
           | Inr all_asr_segments \<Rightarrow>
               (case diarize w of
                  Inl e \<Rightarrow> Inl (Raised e)
                | Inr diar_segments \<Rightarrow>
                    Inr (build_response (uuid w)
                           (align_asr_with_diarization all_asr_segments diar_segments)))))"

section \<open>The text-only tool: \<^verbatim>\<open>transcribe_audio\<close> of \<^verbatim>\<open>server.py\<close>\<close>

text \<open>The decimal digits of a number, as \<^verbatim>\<open>{i}\<close> in an f-string prints it.\<close>

definition digit_char :: "nat \<Rightarrow> char" where
  "digit_char n = ''0123456789'' ! n"

function str_nat :: "nat \<Rightarrow> string" where
  "str_nat n = (if n < 10 then [digit_char n] else str_nat (n div 10) @ [digit_char (n mod 10)])"
  by pat_completeness auto
termination
  by (relation "measure id") auto

declare str_nat.simps [simp del]

text \<open>
  The loop of \<^verbatim>\<open>transcribe_audio_generator\<close> over \<^verbatim>\<open>enumerate(chunks, 1)\<close>: the list of
  the strings it yields, and the exception that ends it, if any. \<^verbatim>\<open>except Exception\<close>
  turns a call that raises an \<^verbatim>\<open>Exception\<close> into a marker; any other exception is not
  caught and ends the generator.
\<close>

fun generator_loop :: "(nat \<Rightarrow> raised + string) \<Rightarrow> (nat \<times> nat) list \<Rightarrow> string list \<times> raised option" where
  "generator_loop transcribe_text [] = ([], None)"
| "generator_loop transcribe_text ((i, chunk) # rest) =
     (case transcribe_text chunk of
        Inr text \<Rightarrow>
          (case generator_loop transcribe_text rest of
             (yields, exc) \<Rightarrow> ((text @ '' '') # yields, exc))
      | Inl (Exception msg) \<Rightarrow>
          (case generator_loop transcribe_text rest of
             (yields, exc) \<Rightarrow>
               ((''[Error transcribing chunk '' @ str_nat i @ '': '' @ msg @ ''] '') # yields, exc))
      | Inl (BaseException msg) \<Rightarrow> ([], Some (BaseException msg)))"

text \<open>
  The loop \<^verbatim>\<open>async for text in ...\<close> of \<^verbatim>\<open>transcribe_audio\<close>; an exception out of the
  generator passes through it to the caller.
\<close>

fun collect :: "string list \<Rightarrow> string \<Rightarrow> string" where
  "collect [] full_text = full_text"
| "collect (text # texts) full_text = collect texts (full_text @ text)"

record server_world =
  s_response :: http_response
  s_tmp_path :: string
  s_NUM_CHUNKS :: nat
  transcribe_text :: "nat \<Rightarrow> raised + string"

definition transcribe_audio :: "server_world \<Rightarrow> error + string" where
  "transcribe_audio w =
     (case server_download_audio (s_response w) (s_tmp_path w) of
        Inl e \<Rightarrow> Inl e
      | Inr (tmp_file, content_type) \<Rightarrow>
          (case generator_loop (transcribe_text w) (enumerate 1 (split_audio (s_NUM_CHUNKS w))) of
             (yields, Some e) \<Rightarrow> Inl (Raised e)
           | (yields, None) \<Rightarrow> Inr (strip (collect yields []))))"

section \<open>Notions used to state the properties\<close>

text \<open>
  A list of segments is a contiguous chain from time \<open>t\<close>: the first segment starts at
  \<open>t\<close>, and every later one starts where the one before it ends.
\<close>

fun contiguous :: "rat \<Rightarrow> asr_segment list \<Rightarrow> bool" where
  "contiguous t [] = True"
| "contiguous t (s # ss) = (seg_start s = t \<and> contiguous (seg_end s) ss)"

text \<open>
  The segments that \<^const>\<open>seg_loop\<close> appends, written without the accumulator; the loop is
  related to it in \<open>seg_loop_chain_from\<close>.
\<close>

fun chain_from :: "chunk_draws \<Rightarrow> nat list \<Rightarrow> rat \<Rightarrow> asr_segment list" where
  "chain_from rc [] t = []"
| "chain_from rc (i # is) t =
     \<lparr>seg_id = i, seg_start = py_round2 t,
      seg_end = py_round2 (py_round2 t + py_round2 (duration_draw rc i)),
      seg_text = Some (text_draw rc i)\<rparr>
     # chain_from rc is (py_round2 (py_round2 t + py_round2 (duration_draw rc i)))"

text \<open>
  The string that the generator of \<^verbatim>\<open>server.py\<close> yields for chunk \<open>chunk\<close>, numbered \<open>i\<close>,
  when the transcription returns or raises an \<^verbatim>\<open>Exception\<close>.
\<close>

definition yielded :: "(nat \<Rightarrow> raised + string) \<Rightarrow> nat \<Rightarrow> nat \<Rightarrow> string" where
  "yielded outcome i chunk =
     (case outcome chunk of
        Inr text \<Rightarrow> text @ '' ''
      | Inl (Exception msg) \<Rightarrow> ''[Error transcribing chunk '' @ str_nat i @ '': '' @ msg @ ''] ''
      | Inl (BaseException msg) \<Rightarrow> [])"

text \<open>No transcription among the chunks \<open>k, ..., n - 1\<close> raises outside \<^verbatim>\<open>Exception\<close>.\<close>

definition no_base_exception :: "(nat \<Rightarrow> raised + string) \<Rightarrow> nat \<Rightarrow> nat \<Rightarrow> bool" where
  "no_base_exception outcome k n =
     list_all (\<lambda>i. case outcome i of Inl (BaseException msg) \<Rightarrow> False | _ \<Rightarrow> True) [k..<n]"

section \<open>Facts about the built-ins\<close>

lemma round_half_even_of_int [simp]: "round_half_even (of_int k) = k"
  by (simp add: round_half_even_def)

lemma py_round2_hundredth [simp]: "py_round2 (of_int k / 100) = of_int k / 100"
  by (simp add: py_round2_def)

lemma py_round2_idem [simp]: "py_round2 (py_round2 x) = py_round2 x"
  by (simp add: py_round2_def)

lemma py_round2_0 [simp]: "py_round2 0 = 0"
  using py_round2_hundredth [of 0] by simp

lemma round_half_even_ge: "of_int m \<le> y \<Longrightarrow> m \<le> round_half_even y"
proof -
  assume "of_int m \<le> y"
  then have "m \<le> \<lfloor>y\<rfloor>" by (simp add: le_floor_iff)
  then show ?thesis by (simp add: round_half_even_def Let_def)
qed

lemma round_half_even_le: "y \<le> of_int m \<Longrightarrow> round_half_even y \<le> m"
proof -
  assume le: "y \<le> of_int m"
  then have fl: "\<lfloor>y\<rfloor> \<le> m" by (simp add: floor_le_iff)
  show ?thesis
  proof (cases "\<lfloor>y\<rfloor> = m")
    case True
    then have "y - of_int \<lfloor>y\<rfloor> \<le> 0" using le by simp
    then have "y - of_int \<lfloor>y\<rfloor> < 1 / 2" by linarith
    then show ?thesis using True by (simp add: round_half_even_def Let_def)
  next
    case False
    then have "\<lfloor>y\<rfloor> + 1 \<le> m" using fl by simp
    then show ?thesis by (simp add: round_half_even_def Let_def)
  qed
qed

lemma py_round2_ge: "of_int m / 100 \<le> x \<Longrightarrow> of_int m / 100 \<le> py_round2 x"
proof -
  assume "of_int m / 100 \<le> x"
  then have "of_int m \<le> x * 100" by (simp add: pos_divide_le_eq)
  then have "m \<le> round_half_even (x * 100)" by (rule round_half_even_ge)
  then show ?thesis by (simp add: py_round2_def divide_right_mono)
qed

lemma py_round2_le: "x \<le> of_int m / 100 \<Longrightarrow> py_round2 x \<le> of_int m / 100"
proof -
  assume "x \<le> of_int m / 100"
  then have "x * 100 \<le> of_int m" by (simp add: pos_le_divide_eq)
  then have "round_half_even (x * 100) \<le> m" by (rule round_half_even_le)
  then show ?thesis by (simp add: py_round2_def divide_right_mono)
qed

lemma py_round2_ge_2: "2 \<le> x \<Longrightarrow> 2 \<le> py_round2 x"
  using py_round2_ge [of 200 x] by simp

lemma py_round2_le_5: "x \<le> 5 \<Longrightarrow> py_round2 x \<le> 5"
  using py_round2_le [of x 500] by simp

lemma py_round2_add: "py_round2 (py_round2 a + py_round2 b) = py_round2 a + py_round2 b"
proof -
  have "py_round2 a + py_round2 b
      = of_int (round_half_even (a * 100) + round_half_even (b * 100)) / 100"
    by (simp add: py_round2_def add_divide_distrib)
  then show ?thesis by (simp only: py_round2_hundredth)
qed

lemma py_max_Max: "py_max (x # xs) dflt = Max (set (x # xs))"
proof -
  have "(\<lambda>m v. if m < v then v else m) = (\<lambda>m v :: rat. max v m)"
    by (intro ext) (simp add: max_def)
  then have "py_max (x # xs) dflt = fold max xs x"
    by (simp add: foldl_conv_fold)
  then show ?thesis by (simp only: Max.set_eq_fold)
qed

section \<open>Facts about float rounding\<close>

lemma ilog2_of_int_le:
  assumes "0 < m" and "m < 2 ^ 53"
  shows "ilog2 (of_int m) \<le> 52"
proof -
  have q: "quotient_of \<bar>of_int m\<bar> = (m, 1)"
    using assms(1) by (simp add: of_int_rat quotient_of_Fract)
  have "bitlen m \<le> 53"
    using assms(2) by (simp add: bitlen_le_iff_power)
  moreover have "bitlen 1 = 1"
    using bitlen_twopow_add_eq [of 0 0] by simp
  ultimately have "bitlen m - bitlen 1 \<le> 52" by simp
  then show ?thesis
    unfolding ilog2_def q by (simp add: Let_def)
qed

lemma double_round_of_int:
  assumes "0 \<le> m" and "m < 2 ^ 53"
  shows "double_round (of_int m) = of_int m"
proof (cases "m = 0")
  case True
  then show ?thesis by (simp add: double_round_def)
next
  case False
  then have pos: "0 < m" using assms(1) by simp
  define e where "e = max (ilog2 (of_int m) - 52) (- 1074)"
  have "e \<le> 0"
    using ilog2_of_int_le [OF pos assms(2)] by (simp add: e_def)
  then have p: "pow2 e = 1 / 2 ^ nat (- e)"
    by (cases "e = 0") (simp_all add: pow2_def)
  have "of_int m / pow2 e = (of_int (m * 2 ^ nat (- e)) :: rat)"
    by (simp add: p)
  then have "round_half_even (of_int m / pow2 e) = m * 2 ^ nat (- e)"
    by (simp only: round_half_even_of_int)
  then have "of_int (round_half_even (of_int m / pow2 e)) * pow2 e = (of_int m :: rat)"
    by (simp add: p)
  then show ?thesis
    using False by (simp add: double_round_def e_def Let_def)
qed

lemma float_add_offset:
  assumes "of_nat (Suc k) * CHUNK_DURATION_SEC < 2 ^ 53"
  shows "float_add (of_nat k * CHUNK_DURATION_SEC) CHUNK_DURATION_SEC = of_nat (Suc k) * CHUNK_DURATION_SEC"
proof -
  have s: "of_nat k * CHUNK_DURATION_SEC + CHUNK_DURATION_SEC = of_int (int (Suc k) * 20)"
    by (simp add: CHUNK_DURATION_SEC_def algebra_simps)
  have "(of_int (int (Suc k) * 20) :: rat) < of_int (2 ^ 53)"
    using assms by (simp add: CHUNK_DURATION_SEC_def algebra_simps)
  then have "int (Suc k) * 20 < 2 ^ 53"
    by (simp only: of_int_less_iff)
  then have "double_round (of_int (int (Suc k) * 20)) = of_int (int (Suc k) * 20)"
    by (intro double_round_of_int) simp_all
  then show ?thesis
    unfolding float_add_def s by (simp add: CHUNK_DURATION_SEC_def algebra_simps)
qed

section \<open>Facts about the aligner\<close>

lemma scan_diar_find:
  "scan_diar a ds results =
     results @ (case find (overlap a) ds of None \<Rightarrow> [] | Some d \<Rightarrow> [aligned_entry a d])"
  by (induction ds) simp_all

lemma align_loop_concat:
  "align_loop asr ds results =
     results @ concat (map (\<lambda>a. case find (overlap a) ds of None \<Rightarrow> [] | Some d \<Rightarrow> [aligned_entry a d]) asr)"
  by (induction asr arbitrary: results) (simp_all add: scan_diar_find)

lemma align_append:
  "align_asr_with_diarization (xs @ ys) ds =
     align_asr_with_diarization xs ds @ align_asr_with_diarization ys ds"
  by (simp add: align_asr_with_diarization_def align_loop_concat)

lemma find_overlap_None: "\<not> list_ex (overlap a) ds \<Longrightarrow> find (overlap a) ds = None"
  by (simp add: find_None_iff list_ex_iff)

lemma find_overlap_Some:
  "find (overlap a) ds = Some d \<Longrightarrow> list_ex (overlap a) ds \<and> d \<in> set ds"
  by (auto simp: find_Some_iff list_ex_iff)

lemma align_unmatched: "\<not> list_ex (overlap a) ds \<Longrightarrow> align_asr_with_diarization [a] ds = []"
  by (simp add: align_asr_with_diarization_def align_loop_concat find_overlap_None)

lemma aligned_times:
  "map (\<lambda>s. (a_start s, a_end s))
      (concat (map (\<lambda>a. case find (overlap a) ds of None \<Rightarrow> [] | Some d \<Rightarrow> [aligned_entry a d]) asr))
   = map (\<lambda>a. (py_round2 (seg_start a), py_round2 (seg_end a))) (filter (\<lambda>a. list_ex (overlap a) ds) asr)"
proof (induction asr)
  case Nil
  then show ?case by simp
next
  case (Cons a asr)
  show ?case
  proof (cases "find (overlap a) ds")
    case None
    then have "\<not> list_ex (overlap a) ds" by (simp add: find_None_iff list_ex_iff)
    then show ?thesis using None Cons.IH by simp
  next
    case (Some d)
    then have "list_ex (overlap a) ds" by (simp add: find_overlap_Some)
    then show ?thesis using Some Cons.IH by (simp add: aligned_entry_def)
  qed
qed

lemma a_speaker_aligned_entry: "a_speaker (aligned_entry a d) = d_speaker d"
  by (simp add: aligned_entry_def)

lemma aligned_speakers:
  "s \<in> set (concat (map (\<lambda>a. case find (overlap a) ds of None \<Rightarrow> [] | Some d \<Rightarrow> [aligned_entry a d]) asr))
   \<Longrightarrow> a_speaker s \<in> d_speaker ` set ds"
proof (induction asr)
  case Nil
  then show ?case by simp
next
  case (Cons a asr)
  show ?case
  proof (cases "find (overlap a) ds")
    case None
    then show ?thesis using Cons by simp
  next
    case (Some d)
    then have d: "d \<in> set ds" by (simp add: find_overlap_Some)
    from Cons.prems Some consider "s = aligned_entry a d"
      | "s \<in> set (concat (map (\<lambda>a. case find (overlap a) ds of None \<Rightarrow> [] | Some d \<Rightarrow> [aligned_entry a d]) asr))"
      by auto
    then show ?thesis
    proof cases
      case 1
      then show ?thesis using d by (simp add: a_speaker_aligned_entry)
    next
      case 2
      then show ?thesis by (rule Cons.IH)
    qed
  qed
qed

section \<open>Facts about the mock transcriber\<close>

lemma seg_loop_chain_from: "seg_loop rc is t segs = segs @ chain_from rc is t"
  by (induction "is" arbitrary: t segs) (simp_all add: Let_def)

lemma transcribe_chunk_chain_from: "transcribe_chunk rc = chain_from rc [0..<num_segments rc] 0"
  by (simp add: transcribe_chunk_def seg_loop_chain_from)

lemma length_chain_from [simp]: "length (chain_from rc is t) = length is"
  by (induction "is" arbitrary: t) simp_all

lemma contiguous_chain_from:
  "py_round2 t = t \<Longrightarrow> contiguous t (chain_from rc is t)"
  by (induction "is" arbitrary: t) simp_all

lemma chain_from_bounds:
  assumes "py_round2 t = t"
    and "\<forall>i\<in>set is. 2 \<le> duration_draw rc i \<and> duration_draw rc i \<le> 5"
    and "s \<in> set (chain_from rc is t)"
  shows "t \<le> seg_start s \<and> seg_start s + 5 \<le> t + 5 * of_nat (length is)
       \<and> seg_start s \<le> seg_end s \<and> seg_end s \<le> t + 5 * of_nat (length is)"
  using assms
proof (induction "is" arbitrary: t)
  case Nil
  then show ?case by simp
next
  case (Cons i "is")
  let ?d = "py_round2 (duration_draw rc i)"
  have d: "2 \<le> ?d" "?d \<le> 5"
    using Cons.prems(2) by (simp_all add: py_round2_ge_2 py_round2_le_5)
  have e: "py_round2 (py_round2 t + ?d) = t + ?d"
    using py_round2_add [of t "duration_draw rc i"] Cons.prems(1) by simp
  show ?case
  proof (cases "s \<in> set (chain_from rc is (t + ?d))")
    case True
    have "py_round2 (t + ?d) = t + ?d"
      using e Cons.prems(1) by simp
    from Cons.IH [OF this _ True] Cons.prems(2)
    have "t + ?d \<le> seg_start s \<and> seg_start s + 5 \<le> t + ?d + 5 * of_nat (length is)
       \<and> seg_start s \<le> seg_end s \<and> seg_end s \<le> t + ?d + 5 * of_nat (length is)"
      by simp
    then show ?thesis using d by simp
  next
    case False
    then have "s = \<lparr>seg_id = i, seg_start = t, seg_end = t + ?d, seg_text = Some (text_draw rc i)\<rparr>"
      using Cons.prems(3) e Cons.prems(1) by simp
    then show ?thesis using d by simp
  qed
qed


lemma valid_draws_range:
  "valid_draws rc \<Longrightarrow> \<forall>i\<in>set [0..<num_segments rc]. 2 \<le> duration_draw rc i \<and> duration_draw rc i \<le> 5"
  by (simp add: valid_draws_def list_all_iff)

lemma transcribe_chunk_starts:
  assumes "valid_draws rc" and "s \<in> set (transcribe_chunk rc)"
  shows "0 \<le> seg_start s \<and> seg_start s \<le> CHUNK_DURATION_SEC \<and> seg_end s \<le> 25"
proof -
  have n: "num_segments rc \<le> 5" using assms(1) by (simp add: valid_draws_def)
  then have n5: "5 * (of_nat (num_segments rc) :: rat) \<le> 25" by simp
  have "s \<in> set (chain_from rc [0..<num_segments rc] 0)"
    using assms(2) by (simp add: transcribe_chunk_chain_from)
  from chain_from_bounds [OF py_round2_0 valid_draws_range [OF assms(1)] this]
  have "0 \<le> seg_start s" "seg_start s + 5 \<le> 5 * of_nat (num_segments rc)"
    "seg_end s \<le> 5 * of_nat (num_segments rc)"
    by simp_all
  then show ?thesis using n5 by (simp add: CHUNK_DURATION_SEC_def)
qed


section \<open>Facts about the chunk loop\<close>

lemma chunk_loop_upt:
  assumes "\<forall>i<n. tr i = Inr (segs i)"
  shows "chunk_loop tr [k..<n] (of_nat k * CHUNK_DURATION_SEC) acc =
           Inr (acc @ concat (map (\<lambda>i. map (add_offset (of_nat i * CHUNK_DURATION_SEC)) (segs i)) [k..<n]))"
proof (induction "n - k" arbitrary: k acc)
  case 0
  then show ?case by simp
next
  case (Suc m)
  then have kn: "k < n" and m: "m = n - Suc k" by simp_all
  have off: "of_nat k * CHUNK_DURATION_SEC + CHUNK_DURATION_SEC = of_nat (Suc k) * CHUNK_DURATION_SEC"
    by (simp add: algebra_simps)
  have tk: "tr k = Inr (segs k)" using assms kn by simp
  show ?case
    using Suc.hyps(1) [OF m, of "acc @ map (add_offset (of_nat k * CHUNK_DURATION_SEC)) (segs k)"]
    by (simp only: upt_conv_Cons [OF kn] chunk_loop.simps tk sum.case off list.map concat.simps append_assoc)
qed

lemma chunk_loop_all:
  assumes "\<forall>i<n. tr i = Inr (segs i)"
  shows "chunk_loop tr (split_audio n) 0 [] =
           Inr (concat (map (\<lambda>i. map (add_offset (of_nat i * CHUNK_DURATION_SEC)) (segs i)) [0..<n]))"
  using chunk_loop_upt [OF assms, of 0 "[]"] by (simp add: split_audio_def)

text \<open>A failing chunk ends the loop with its exception, whatever came before.\<close>

lemma chunk_loop_failure:
  assumes "k \<le> c" and "c < n" and "tr c = Inl e"
    and "\<forall>c'. k \<le> c' \<and> c' < c \<longrightarrow> (\<exists>segs. tr c' = Inr segs)"
  shows "chunk_loop tr [k..<n] offset acc = Inl (Raised e)"
  using assms(1,4)
proof (induction "c - k" arbitrary: k offset acc)
  case 0
  then have "k = c" by simp
  then show ?case using assms(2,3) by (simp add: upt_conv_Cons)
next
  case (Suc m)
  then have kc: "k < c" by simp
  then have kn: "k < n" using assms(2) by simp
  obtain segs where s: "tr k = Inr segs" using Suc.prems(2) kc by blast
  have "chunk_loop tr [Suc k..<n] (offset + CHUNK_DURATION_SEC) (acc @ map (add_offset offset) segs)
          = Inl (Raised e)"
  proof (rule Suc.hyps(1))
    show "m = c - Suc k" using Suc.hyps(2) by simp
    show "Suc k \<le> c" using kc by simp
    show "\<forall>c'. Suc k \<le> c' \<and> c' < c \<longrightarrow> (\<exists>segs. tr c' = Inr segs)"
      using Suc.prems(2) by simp
  qed
  then show ?case by (simp add: upt_conv_Cons [OF kn] s)
qed

lemma chunk_loop_float_upt:
  assumes "\<forall>i<n. tr i = Inr (segs i)" and "of_nat n * CHUNK_DURATION_SEC < 2 ^ 53"
  shows "chunk_loop_float tr [k..<n] (of_nat k * CHUNK_DURATION_SEC) acc =
           Inr (acc @ concat (map (\<lambda>i. map (add_offset_float (of_nat i * CHUNK_DURATION_SEC)) (segs i)) [k..<n]))"
proof (induction "n - k" arbitrary: k acc)
  case 0
  then show ?case by simp
next
  case (Suc m)
  then have kn: "k < n" and m: "m = n - Suc k" by simp_all
  have "(of_nat (Suc k) :: rat) \<le> of_nat n" using kn by simp
  then have "of_nat (Suc k) * CHUNK_DURATION_SEC \<le> of_nat n * CHUNK_DURATION_SEC"
    by (simp add: CHUNK_DURATION_SEC_def)
  then have "of_nat (Suc k) * CHUNK_DURATION_SEC < 2 ^ 53"
    using assms(2) by simp
  then have off: "float_add (of_nat k * CHUNK_DURATION_SEC) CHUNK_DURATION_SEC
                    = of_nat (Suc k) * CHUNK_DURATION_SEC"
    by (rule float_add_offset)
  have tk: "tr k = Inr (segs k)" using assms(1) kn by simp
  show ?case
    using Suc.hyps(1) [OF m, of "acc @ map (add_offset_float (of_nat k * CHUNK_DURATION_SEC)) (segs k)"]
    by (simp only: upt_conv_Cons [OF kn] chunk_loop_float.simps tk sum.case off list.map concat.simps append_assoc)
qed

lemma chunk_loop_float_all:
  assumes "\<forall>i<n. tr i = Inr (segs i)" and "of_nat n * CHUNK_DURATION_SEC < 2 ^ 53"
  shows "chunk_loop_float tr (split_audio n) 0 [] =
           Inr (concat (map (\<lambda>i. map (add_offset_float (of_nat i * CHUNK_DURATION_SEC)) (segs i)) [0..<n]))"
  using chunk_loop_float_upt [OF assms, of 0 "[]"] by (simp add: split_audio_def)

text \<open>
  The loop on floats returns what the loop on exact timestamps returns, each bound rounded
  to the nearest float.
\<close>

lemma chunk_loop_float_rounds_chunk_loop:
  assumes "\<forall>i<n. tr i = Inr (segs i)" and "of_nat n * CHUNK_DURATION_SEC < 2 ^ 53"
  shows "chunk_loop_float tr (split_audio n) 0 [] =
           map_sum id (map (\<lambda>s. s\<lparr>seg_start := double_round (seg_start s),
                                   seg_end := double_round (seg_end s)\<rparr>))
             (chunk_loop tr (split_audio n) 0 [])"
proof -
  have "add_offset_float c = (\<lambda>s. s\<lparr>seg_start := double_round (seg_start s),
                                     seg_end := double_round (seg_end s)\<rparr>) \<circ> add_offset c" for c
    by (intro ext) (simp add: add_offset_float_def add_offset_def float_add_def)
  then show ?thesis
    by (simp add: chunk_loop_float_all [OF assms] chunk_loop_all [OF assms(1)] map_concat comp_def)
qed

lemma chunk_loop_float_failure:
  assumes "k \<le> c" and "c < n" and "tr c = Inl e"
    and "\<forall>c'. k \<le> c' \<and> c' < c \<longrightarrow> (\<exists>segs. tr c' = Inr segs)"
  shows "chunk_loop_float tr [k..<n] offset acc = Inl (Raised e)"
  using assms(1,4)
proof (induction "c - k" arbitrary: k offset acc)
  case 0
  then have "k = c" by simp
  then show ?case using assms(2,3) by (simp add: upt_conv_Cons)
next
  case (Suc m)
  then have kc: "k < c" by simp
  then have kn: "k < n" using assms(2) by simp
  obtain segs where s: "tr k = Inr segs" using Suc.prems(2) kc by blast
  have "chunk_loop_float tr [Suc k..<n] (float_add offset CHUNK_DURATION_SEC)
          (acc @ map (add_offset_float offset) segs) = Inl (Raised e)"
  proof (rule Suc.hyps(1))
    show "m = c - Suc k" using Suc.hyps(2) by simp
    show "Suc k \<le> c" using kc by simp
    show "\<forall>c'. Suc k \<le> c' \<and> c' < c \<longrightarrow> (\<exists>segs. tr c' = Inr segs)"
      using Suc.prems(2) by simp
  qed
  then show ?case by (simp add: upt_conv_Cons [OF kn] s)
qed

lemma seg_start_add_offset [simp]: "seg_start (add_offset c s) = seg_start s + c"
  by (simp add: add_offset_def)

lemma seg_end_add_offset [simp]: "seg_end (add_offset c s) = seg_end s + c"
  by (simp add: add_offset_def)





section \<open>Facts about the two tools\<close>

text \<open>When every collaborator call returns, the tool returns the assembled response.\<close>

lemma process_meeting_audio_success:
  assumes "is_success (response w)" and "\<forall>i<NUM_CHUNKS w. transcribe w i = Inr (segs i)"
    and "of_nat (NUM_CHUNKS w) * CHUNK_DURATION_SEC < 2 ^ 53" and "diarize w = Inr ds"
  shows "process_meeting_audio w =
           Inr (build_response (uuid w)
                  (align_asr_with_diarization
                     (concat (map (\<lambda>i. map (add_offset_float (of_nat i * CHUNK_DURATION_SEC)) (segs i))
                                  [0..<NUM_CHUNKS w]))
                     ds))"
  using assms(1,4) chunk_loop_float_all [OF assms(2,3)]
  by (simp add: process_meeting_audio_def meeting_download_audio_def)

text \<open>
  The example of two chunks \<open>{0, 5, hello}\<close> and \<open>{2, 6, world}\<close> with speaker turns
  \<open>s1\<close> from 0 to 25 and \<open>s2\<close> from 25 to 40.
\<close>

lemma process_meeting_audio_example:
  "process_meeting_audio
      \<lparr>response = \<lparr>status_code = 200, headers = Map.empty\<rparr>,
       tmp_path = ''/tmp/asr_d.mp3'', NUM_CHUNKS = 2,
       transcribe = (\<lambda>i. if i = 0
                          then Inr [\<lparr>seg_id = 0, seg_start = 0, seg_end = 5, seg_text = Some ''hello''\<rparr>]
                          else Inr [\<lparr>seg_id = 0, seg_start = 2, seg_end = 6, seg_text = Some ''world''\<rparr>]),
       diarize = Inr [\<lparr>d_speaker = ''s1'', d_start = 0, d_end = 25\<rparr>,
                      \<lparr>d_speaker = ''s2'', d_start = 25, d_end = 40\<rparr>],
       uuid = ''0001''\<rparr>
   = Inr \<lparr>meeting_id = ''0001'', speakers = [''s1''],
          segments = [\<lparr>a_speaker = ''s1'', a_start = 0, a_end = 5, a_text = ''hello''\<rparr>,
                      \<lparr>a_speaker = ''s1'', a_start = 22, a_end = 26, a_text = ''world''\<rparr>],
          full_transcript = ''hello world'', duration = 26\<rparr>"
  by code_simp

text \<open>A transcription that raises, of either kind, ends the tool with that exception.\<close>

lemma process_meeting_audio_chunk_failure:
  assumes "is_success (response w)" and "c < NUM_CHUNKS w" and "transcribe w c = Inl e"
    and "\<forall>c'<c. \<exists>segs. transcribe w c' = Inr segs"
  shows "process_meeting_audio w = Inl (Raised e)"
proof -
  have "chunk_loop_float (transcribe w) [0..<NUM_CHUNKS w] 0 [] = Inl (Raised e)"
    using assms(2-4) by (intro chunk_loop_float_failure [where c = c]) simp_all
  then show ?thesis
    using assms(1) by (simp add: process_meeting_audio_def meeting_download_audio_def split_audio_def)
qed

lemma collect_concat: "collect texts full_text = full_text @ concat texts"
  by (induction texts arbitrary: full_text) simp_all

lemma generator_loop_upt:
  "no_base_exception outcome k n \<Longrightarrow>
   generator_loop outcome (enumerate (Suc k) [k..<n]) = (map (\<lambda>i. yielded outcome (Suc i) i) [k..<n], None)"
proof (induction "n - k" arbitrary: k)
  case 0
  then show ?case by simp
next
  case (Suc m)
  then have kn: "k < n" and m: "m = n - Suc k" by simp_all
  have rest: "no_base_exception outcome (Suc k) n"
    using Suc.prems by (simp add: no_base_exception_def upt_conv_Cons [OF kn])
  have here: "(case outcome k of Inl (BaseException msg) \<Rightarrow> False | _ \<Rightarrow> True)"
    using Suc.prems by (simp add: no_base_exception_def upt_conv_Cons [OF kn])
  show ?case
    using Suc.hyps(1) [OF m rest] here
    by (simp add: upt_conv_Cons [OF kn] yielded_def split: sum.splits raised.splits)
qed

text \<open>
  \<^verbatim>\<open>transcribe_audio\<close> of \<^verbatim>\<open>server.py\<close> keeps going when a transcription raises an
  \<^verbatim>\<open>Exception\<close>: every chunk contributes its text or its marker, in order.
\<close>

lemma transcribe_audio_marks_failed_chunks:
  assumes "is_success (s_response w)" and "no_base_exception (transcribe_text w) 0 (s_NUM_CHUNKS w)"
  shows "transcribe_audio w =
           Inr (strip (concat (map (\<lambda>i. yielded (transcribe_text w) (Suc i) i) [0..<s_NUM_CHUNKS w])))"
  using assms(1) generator_loop_upt [OF assms(2)]
  by (simp add: transcribe_audio_def server_download_audio_def split_audio_def collect_concat)

lemma transcribe_audio_example:
  "transcribe_audio
      \<lparr>s_response = \<lparr>status_code = 200, headers = [''content-type'' \<mapsto> ''audio/wav'']\<rparr>,
       s_tmp_path = ''/tmp/asr_c.wav'', s_NUM_CHUNKS = 2,
       transcribe_text = (\<lambda>i. if i = 0 then Inl (Exception ''boom'') else Inr ''hello'')\<rparr>
     = Inr ''[Error transcribing chunk 1: boom] hello''"
proof -
  have u: "[0..<2] = [0, Suc 0]" by (simp add: upt_rec)
  have n: "str_nat (Suc 0) = ''1''" by (simp add: str_nat.simps digit_char_def)
  show ?thesis
    by (simp add: transcribe_audio_def server_download_audio_def is_success_def split_audio_def u n
        strip_def isspace_def)
qed

text \<open>An exception outside \<^verbatim>\<open>Exception\<close> is not caught there either.\<close>

lemma transcribe_audio_cancelled_example:
  "transcribe_audio
      \<lparr>s_response = \<lparr>status_code = 200, headers = [''content-type'' \<mapsto> ''audio/wav'']\<rparr>,
       s_tmp_path = ''/tmp/asr_c.wav'', s_NUM_CHUNKS = 2,
       transcribe_text = (\<lambda>i. if i = 0 then Inr ''hello'' else Inl (BaseException ''''))\<rparr>
     = Inl (Raised (BaseException ''''))"
proof -
  have u: "[0..<2] = [0, Suc 0]" by (simp add: upt_rec)
  show ?thesis
    by (simp add: transcribe_audio_def server_download_audio_def is_success_def split_audio_def u)
qed

lemma download_audio_declared_type:
  assumes "is_success resp" and "headers resp ''content-type'' = Some ct"
  shows "meeting_download_audio resp p = Inr (p, Some ct)"
    and "server_download_audio resp p = Inr (p, Some ct)"
  using assms by (simp_all add: meeting_download_audio_def server_download_audio_def)

section \<open>Properties of the aligner\<close>

text \<open>
  C1. For every list of transcript segments and every list of diarization segments, the
  aligner gives, for each transcript segment \<open>a\<close> in order, the entry built from the first
  diarization segment \<open>d\<close>, in list order, with \<open>a.start \<le> d.end\<close> and \<open>a.end \<ge> d.start\<close>,
  and nothing when there is none. Both comparisons are inclusive: a transcript segment
  from 10 to 12 and a diarization segment from 12 to 20 overlap, and so do a transcript
  segment from 20 to 25 and a diarization segment from 12 to 20; the aligned segment
  carries that diarization segment's speaker, also when a later one overlaps too. A
  diarization segment wholly before or wholly after the transcript segment is passed over.
\<close>

theorem align_selects_first_overlap:
  "align_asr_with_diarization asr ds =
     concat (map (\<lambda>a. case find (\<lambda>d. seg_start a \<le> d_end d \<and> seg_end a \<ge> d_start d) ds of
                         None \<Rightarrow> []
                       | Some d \<Rightarrow>
                           [\<lparr>a_speaker = d_speaker d,
                             a_start = py_round2 (seg_start a),
                             a_end = py_round2 (seg_end a),
                             a_text = strip (case seg_text a of None \<Rightarrow> [] | Some t \<Rightarrow> t)\<rparr>]) asr)
   \<and> align_asr_with_diarization
        [\<lparr>seg_id = 0, seg_start = 10, seg_end = 12, seg_text = Some ''hello''\<rparr>]
        [\<lparr>d_speaker = ''spk_2'', d_start = 12, d_end = 20\<rparr>]
      = [\<lparr>a_speaker = ''spk_2'', a_start = 10, a_end = 12, a_text = ''hello''\<rparr>]
   \<and> align_asr_with_diarization
        [\<lparr>seg_id = 0, seg_start = 10, seg_end = 12, seg_text = Some ''hello''\<rparr>]
        [\<lparr>d_speaker = ''spk_1'', d_start = 0, d_end = 9\<rparr>,
         \<lparr>d_speaker = ''spk_4'', d_start = 13, d_end = 20\<rparr>,
         \<lparr>d_speaker = ''spk_2'', d_start = 12, d_end = 20\<rparr>,
         \<lparr>d_speaker = ''spk_3'', d_start = 11, d_end = 30\<rparr>]
      = [\<lparr>a_speaker = ''spk_2'', a_start = 10, a_end = 12, a_text = ''hello''\<rparr>]
   \<and> align_asr_with_diarization
        [\<lparr>seg_id = 0, seg_start = 20, seg_end = 25, seg_text = Some ''world''\<rparr>]
        [\<lparr>d_speaker = ''spk_1'', d_start = 12, d_end = 20\<rparr>]
      = [\<lparr>a_speaker = ''spk_1'', a_start = 20, a_end = 25, a_text = ''world''\<rparr>]"
proof (intro conjI)
  show "align_asr_with_diarization asr ds =
     concat (map (\<lambda>a. case find (\<lambda>d. seg_start a \<le> d_end d \<and> seg_end a \<ge> d_start d) ds of
                         None \<Rightarrow> []
                       | Some d \<Rightarrow>
                           [\<lparr>a_speaker = d_speaker d,
                             a_start = py_round2 (seg_start a),
                             a_end = py_round2 (seg_end a),
                             a_text = strip (case seg_text a of None \<Rightarrow> [] | Some t \<Rightarrow> t)\<rparr>]) asr)"
    unfolding align_asr_with_diarization_def align_loop_concat aligned_entry_def overlap_def [abs_def]
    by simp
  show "align_asr_with_diarization
        [\<lparr>seg_id = 0, seg_start = 10, seg_end = 12, seg_text = Some ''hello''\<rparr>]
        [\<lparr>d_speaker = ''spk_2'', d_start = 12, d_end = 20\<rparr>]
      = [\<lparr>a_speaker = ''spk_2'', a_start = 10, a_end = 12, a_text = ''hello''\<rparr>]"
    by code_simp
  show "align_asr_with_diarization
        [\<lparr>seg_id = 0, seg_start = 10, seg_end = 12, seg_text = Some ''hello''\<rparr>]
        [\<lparr>d_speaker = ''spk_1'', d_start = 0, d_end = 9\<rparr>,
         \<lparr>d_speaker = ''spk_4'', d_start = 13, d_end = 20\<rparr>,
         \<lparr>d_speaker = ''spk_2'', d_start = 12, d_end = 20\<rparr>,
         \<lparr>d_speaker = ''spk_3'', d_start = 11, d_end = 30\<rparr>]
      = [\<lparr>a_speaker = ''spk_2'', a_start = 10, a_end = 12, a_text = ''hello''\<rparr>]"
    by code_simp
  show "align_asr_with_diarization
        [\<lparr>seg_id = 0, seg_start = 20, seg_end = 25, seg_text = Some ''world''\<rparr>]
        [\<lparr>d_speaker = ''spk_1'', d_start = 12, d_end = 20\<rparr>]
      = [\<lparr>a_speaker = ''spk_1'', a_start = 20, a_end = 25, a_text = ''world''\<rparr>]"
    by code_simp
qed

text \<open>
  C5. A transcript segment that overlaps no diarization segment yields no aligned segment,
  and the aligned list, hence the whole response with its full transcript, is the one
  obtained without that segment: the segments before and after it are aligned as if it
  were not there. The aligner returns a list in every case; it has no error to raise.
\<close>

theorem unmatched_segment_dropped:
  assumes "\<not> list_ex (overlap a) ds"
  shows "align_asr_with_diarization [a] ds = []
       \<and> align_asr_with_diarization (xs @ a # ys) ds = align_asr_with_diarization (xs @ ys) ds
       \<and> full_transcript (build_response u (align_asr_with_diarization (xs @ a # ys) ds))
           = full_transcript (build_response u (align_asr_with_diarization (xs @ ys) ds))
       \<and> build_response u (align_asr_with_diarization (xs @ a # ys) ds)
           = build_response u (align_asr_with_diarization (xs @ ys) ds)"
proof -
  have "align_asr_with_diarization (xs @ [a] @ ys) ds = align_asr_with_diarization (xs @ ys) ds"
    using align_unmatched [OF assms] by (simp only: align_append append_Nil)
  then show ?thesis using align_unmatched [OF assms] by simp
qed

theorem unmatched_segment_dropped_witness:
  "\<not> list_ex (overlap \<lparr>seg_id = 1, seg_start = 50, seg_end = 55, seg_text = Some ''lost''\<rparr>)
        [\<lparr>d_speaker = ''spk_1'', d_start = 0, d_end = 25\<rparr>]
   \<and> align_asr_with_diarization
        ([\<lparr>seg_id = 0, seg_start = 0, seg_end = 5, seg_text = Some ''kept''\<rparr>]
         @ \<lparr>seg_id = 1, seg_start = 50, seg_end = 55, seg_text = Some ''lost''\<rparr> # [])
        [\<lparr>d_speaker = ''spk_1'', d_start = 0, d_end = 25\<rparr>]
     = [\<lparr>a_speaker = ''spk_1'', a_start = 0, a_end = 5, a_text = ''kept''\<rparr>]
   \<and> full_transcript (build_response ''id''
        (align_asr_with_diarization
          ([\<lparr>seg_id = 0, seg_start = 0, seg_end = 5, seg_text = Some ''kept''\<rparr>]
           @ \<lparr>seg_id = 1, seg_start = 50, seg_end = 55, seg_text = Some ''lost''\<rparr> # [])
          [\<lparr>d_speaker = ''spk_1'', d_start = 0, d_end = 25\<rparr>])) = ''kept''"
proof -
  have h: "\<not> list_ex (overlap \<lparr>seg_id = 1, seg_start = 50, seg_end = 55, seg_text = Some ''lost''\<rparr>)
        [\<lparr>d_speaker = ''spk_1'', d_start = 0, d_end = 25\<rparr>]"
    by (simp add: overlap_def)
  have k: "align_asr_with_diarization
        ([\<lparr>seg_id = 0, seg_start = 0, seg_end = 5, seg_text = Some ''kept''\<rparr>] @ [])
        [\<lparr>d_speaker = ''spk_1'', d_start = 0, d_end = 25\<rparr>]
     = [\<lparr>a_speaker = ''spk_1'', a_start = 0, a_end = 5, a_text = ''kept''\<rparr>]"
    by code_simp
  show ?thesis
    using h k unmatched_segment_dropped [OF h,
        of "[\<lparr>seg_id = 0, seg_start = 0, seg_end = 5, seg_text = Some ''kept''\<rparr>]" "[]" "''id''"]
    by (simp add: build_response_def)
qed

text \<open>
  C6, as the code has it: the \<open>start\<close> and \<open>end\<close> of the aligned segments are, in order,
  the \<open>start\<close> and \<open>end\<close> of the transcript segments that overlap some diarization segment,
  each rounded to two decimals by \<^verbatim>\<open>round(x, 2)\<close>. The diarization list decides which
  transcript segments appear and gives the speaker, which is always the speaker of one of
  its segments; no time of a diarization segment enters the result.
\<close>

theorem aligned_times_are_rounded_transcript_times:
  "map (\<lambda>s. (a_start s, a_end s)) (align_asr_with_diarization asr ds)
     = map (\<lambda>a. (py_round2 (seg_start a), py_round2 (seg_end a)))
         (filter (\<lambda>a. list_ex (overlap a) ds) asr)
   \<and> a_speaker ` set (align_asr_with_diarization asr ds) \<subseteq> d_speaker ` set ds"
proof
  show "map (\<lambda>s. (a_start s, a_end s)) (align_asr_with_diarization asr ds)
     = map (\<lambda>a. (py_round2 (seg_start a), py_round2 (seg_end a)))
         (filter (\<lambda>a. list_ex (overlap a) ds) asr)"
    by (simp add: align_asr_with_diarization_def align_loop_concat aligned_times)
  show "a_speaker ` set (align_asr_with_diarization asr ds) \<subseteq> d_speaker ` set ds"
    unfolding align_asr_with_diarization_def align_loop_concat append_Nil
    using aligned_speakers by blast
qed

text \<open>
  C6 as stated fails: a transcript segment from 1.0625 to 2.0625 is aligned to a segment
  from 1.06 to 2.06.
\<close>

theorem aligned_times_verbatim_counterexample:
  "align_asr_with_diarization
      [\<lparr>seg_id = 0, seg_start = 17 / 16, seg_end = 33 / 16, seg_text = Some ''hello''\<rparr>]
      [\<lparr>d_speaker = ''spk_1'', d_start = 0, d_end = 10\<rparr>]
     = [\<lparr>a_speaker = ''spk_1'', a_start = 53 / 50, a_end = 103 / 50, a_text = ''hello''\<rparr>]
   \<and> (53 / 50 :: rat) \<noteq> 17 / 16 \<and> (103 / 50 :: rat) \<noteq> 33 / 16"
proof (intro conjI)
  show "align_asr_with_diarization
      [\<lparr>seg_id = 0, seg_start = 17 / 16, seg_end = 33 / 16, seg_text = Some ''hello''\<rparr>]
      [\<lparr>d_speaker = ''spk_1'', d_start = 0, d_end = 10\<rparr>]
     = [\<lparr>a_speaker = ''spk_1'', a_start = 53 / 50, a_end = 103 / 50, a_text = ''hello''\<rparr>]"
    by code_simp
qed simp_all

section \<open>Properties of the timeline\<close>






text \<open>
  C10. Whatever the random draws, the segments that \<^verbatim>\<open>transcribe_chunk\<close> returns are as
  many as drawn and form a contiguous chain from 0: the first starts at 0 and each later
  one starts where the one before ends; no segment ends after 25. The end can pass
  \<open>CHUNK_DURATION_SEC = 20\<close>: five draws of 5 seconds give segments ending at 5, 10, 15, 20
  and 25, and then chunk 0's last segment, from 20 to 25, lies in the time window of
  chunk 1, whose first segment also runs from 20 to 25.
\<close>

theorem transcribe_chunk_contiguous_chain:
  "(valid_draws rc \<longrightarrow>
      length (transcribe_chunk rc) = num_segments rc
      \<and> contiguous 0 (transcribe_chunk rc)
      \<and> list_all (\<lambda>s. seg_end s \<le> 25) (transcribe_chunk rc))
   \<and> valid_draws \<lparr>num_segments = 5, duration_draw = (\<lambda>i. 5), text_draw = (\<lambda>i. ''x'')\<rparr>
   \<and> map (\<lambda>s. (seg_start s, seg_end s))
        (transcribe_chunk \<lparr>num_segments = 5, duration_draw = (\<lambda>i. 5), text_draw = (\<lambda>i. ''x'')\<rparr>)
     = [(0, 5), (5, 10), (10, 15), (15, 20), (20, 25)]
   \<and> CHUNK_DURATION_SEC < 25
   \<and> map_sum id (map (\<lambda>s. (seg_start s, seg_end s)))
        (chunk_loop
           (\<lambda>i. Inr (transcribe_chunk
                        \<lparr>num_segments = 5, duration_draw = (\<lambda>i. 5), text_draw = (\<lambda>i. ''x'')\<rparr>))
           (split_audio 2) 0 [])
     = Inr [(0, 5), (5, 10), (10, 15), (15, 20), (20, 25),
            (20, 25), (25, 30), (30, 35), (35, 40), (40, 45)]"
proof (intro conjI impI)
  assume v: "valid_draws rc"
  show "length (transcribe_chunk rc) = num_segments rc"
    by (simp add: transcribe_chunk_chain_from)
  show "contiguous 0 (transcribe_chunk rc)"
    using contiguous_chain_from [OF py_round2_0] by (simp add: transcribe_chunk_chain_from)
  show "list_all (\<lambda>s. seg_end s \<le> 25) (transcribe_chunk rc)"
    using transcribe_chunk_starts [OF v] by (simp add: list_all_iff)
next
  show "valid_draws \<lparr>num_segments = 5, duration_draw = (\<lambda>i. 5), text_draw = (\<lambda>i. ''x'')\<rparr>"
    by (simp add: valid_draws_def upt_rec)
  show "map (\<lambda>s. (seg_start s, seg_end s))
        (transcribe_chunk \<lparr>num_segments = 5, duration_draw = (\<lambda>i. 5), text_draw = (\<lambda>i. ''x'')\<rparr>)
     = [(0, 5), (5, 10), (10, 15), (15, 20), (20, 25)]"
    by code_simp
  show "CHUNK_DURATION_SEC < 25"
    by (simp add: CHUNK_DURATION_SEC_def)
  show "map_sum id (map (\<lambda>s. (seg_start s, seg_end s)))
        (chunk_loop
           (\<lambda>i. Inr (transcribe_chunk
                        \<lparr>num_segments = 5, duration_draw = (\<lambda>i. 5), text_draw = (\<lambda>i. ''x'')\<rparr>))
           (split_audio 2) 0 [])
     = Inr [(0, 5), (5, 10), (10, 15), (15, 20), (20, 25),
            (20, 25), (25, 30), (30, 35), (35, 40), (40, 45)]"
    by code_simp
qed

theorem transcribe_chunk_contiguous_chain_witness:
  "valid_draws \<lparr>num_segments = 3, duration_draw = (\<lambda>i. 9 / 2), text_draw = (\<lambda>i. ''y'')\<rparr>
   \<and> length (transcribe_chunk \<lparr>num_segments = 3, duration_draw = (\<lambda>i. 9 / 2), text_draw = (\<lambda>i. ''y'')\<rparr>) = 3
   \<and> contiguous 0 (transcribe_chunk \<lparr>num_segments = 3, duration_draw = (\<lambda>i. 9 / 2), text_draw = (\<lambda>i. ''y'')\<rparr>)
   \<and> list_all (\<lambda>s. seg_end s \<le> 25)
        (transcribe_chunk \<lparr>num_segments = 3, duration_draw = (\<lambda>i. 9 / 2), text_draw = (\<lambda>i. ''y'')\<rparr>)"
proof -
  have v: "valid_draws \<lparr>num_segments = 3, duration_draw = (\<lambda>i. 9 / 2), text_draw = (\<lambda>i. ''y'')\<rparr>"
    by (simp add: valid_draws_def upt_rec)
  show ?thesis
    using v transcribe_chunk_contiguous_chain
      [of "\<lparr>num_segments = 3, duration_draw = (\<lambda>i. 9 / 2), text_draw = (\<lambda>i. ''y'')\<rparr>"]
    by simp
qed

section \<open>Properties of the response\<close>

text \<open>
  C8. The field \<open>duration\<close> of the response is the greatest \<open>end\<close> among the aligned
  segments, and 0 when there is none.
\<close>

theorem duration_is_max_end:
  "duration (build_response u aligned) =
     (if aligned = [] then 0 else Max (a_end ` set aligned))"
proof (cases aligned)
  case Nil
  then show ?thesis by (simp add: build_response_def)
next
  case (Cons s ss)
  have "py_max (map a_end (s # ss)) 0 = Max (set (map a_end (s # ss)))"
    unfolding list.map by (rule py_max_Max)
  then show ?thesis using Cons by (simp add: build_response_def)
qed

text \<open>
  C9. The field \<open>speakers\<close> of the response is in strictly ascending order, so sorted and
  free of duplicates, and its elements are exactly the speakers of the aligned segments.
\<close>

theorem speakers_sorted_distinct:
  "sorted (speakers (build_response u aligned))
   \<and> distinct (speakers (build_response u aligned))
   \<and> sorted_wrt (<) (speakers (build_response u aligned))
   \<and> set (speakers (build_response u aligned)) = a_speaker ` set aligned"
  by (simp add: build_response_def strict_sorted_iff del: sorted_list_of_set_sort_remdups)

section \<open>Failures and defaults\<close>

text \<open>
  C2, the code at the input where it departs from the claim: two chunks, the transcription
  of the first raising an exception with the message \<open>boom\<close>, the second returning one
  segment that the diarization covers. \<^verbatim>\<open>process_meeting_audio\<close> has no handler around
  \<^verbatim>\<open>transcribe_chunk\<close>: the call ends with that exception, the second chunk is never
  transcribed and no result is returned.
\<close>

theorem process_meeting_audio_aborts_on_chunk_failure:
  "process_meeting_audio
      \<lparr>response = \<lparr>status_code = 200, headers = [''content-type'' \<mapsto> ''audio/wav'']\<rparr>,
       tmp_path = ''/tmp/asr_c.wav'', NUM_CHUNKS = 2,
       transcribe = (\<lambda>i. if i = 0 then Inl (Exception ''boom'')
                          else Inr [\<lparr>seg_id = 0, seg_start = 0, seg_end = 5, seg_text = Some ''hello''\<rparr>]),
       diarize = Inr [\<lparr>d_speaker = ''spk_1'', d_start = 0, d_end = 100\<rparr>],
       uuid = ''0000''\<rparr>
     = Inl (Raised (Exception ''boom''))"
proof -
  have u: "[0..<2] = [0, Suc 0]" by (simp add: upt_rec)
  show ?thesis
    by (simp add: process_meeting_audio_def meeting_download_audio_def is_success_def split_audio_def u)
qed

text \<open>
  C7, the code at the input where it departs from the claim: a successful response without
  a \<^verbatim>\<open>Content-Type\<close> header. \<^verbatim>\<open>download_audio\<close> of \<^verbatim>\<open>meeting_audio_mcp.py\<close> returns
  \<^verbatim>\<open>None\<close> as the content type; \<^verbatim>\<open>download_audio\<close> of \<^verbatim>\<open>server.py\<close> returns the default
  \<^verbatim>\<open>audio/mpeg\<close>.
\<close>

theorem download_audio_missing_content_type:
  "meeting_download_audio \<lparr>status_code = 200, headers = Map.empty\<rparr> ''/tmp/asr_a.mp3''
     = Inr (''/tmp/asr_a.mp3'', None)
   \<and> server_download_audio \<lparr>status_code = 200, headers = Map.empty\<rparr> ''/tmp/asr_a.mp3''
     = Inr (''/tmp/asr_a.mp3'', Some ''audio/mpeg'')"
  by (simp add: meeting_download_audio_def server_download_audio_def is_success_def)

end
